theory Spec2Isabelle
  imports Main "HOL-Library.Word"
begin

section \<open>Shared-memory dictionary: the embedding\<close>

text \<open>
  The development follows \<^verbatim>\<open>shm_dict/shm_dict.py\<close>, class \<^verbatim>\<open>SHMDict\<close>, under Python 3
  (the module's interpreter line; only there can a logical name hold arbitrary Unicode).
  Every method becomes a function that takes the state it reads and returns an outcome
  together with the state it leaves: an exception is the left injection of the outcome,
  and the state returned with it holds the assignments made before the raise.

  The state is split the way the program splits it. The \<open>world\<close> holds what the
  operating system shares between handles of one logical name (the named semaphore, the
  named memory segment, the persistence file) and the interpreter's object heap; the
  \<open>handle\<close> holds the attributes of one \<^verbatim>\<open>SHMDict\<close> object. What the program
  takes from libraries (pickle, SHA-512, the page size, path resolution) is a parameter,
  collected in the record \<open>env\<close>.
\<close>

subsection \<open>Values, exceptions, environment\<close>

type_synonym byte = "8 word"
type_synonym bytes = "byte list"
type_synonym addr = nat
type_synonym tid = nat

text \<open>A Python 3 string is a sequence of code points.\<close>
type_synonym pystr = "nat list"

text \<open>A Python dictionary keeps its entries in insertion order, with distinct keys.\<close>
type_synonym ('k, 'v) pydict = "('k \<times> 'v) list"

datatype exn =
    BusyError
  | AttributeError
  | KeyError
  | UnpicklingError
  | EOFError
  | IOError
  | ValueError
  | TypeError
  | RuntimeError
  | UnicodeEncodeError

text \<open>
  The library functions the class calls. \<open>dumps2 E c\<close> is \<^verbatim>\<open>pickle.dumps(c, 2)\<close> and
  \<open>dumps_default E c\<close> is \<^verbatim>\<open>pickle.dumps(c)\<close>, both applied to the cache attribute, whose
  value is \<^verbatim>\<open>None\<close> or a dictionary; the type \<open>('k, 'v) pydict\<close> stands for the
  dictionaries the codec can serialize. \<open>loads E bs\<close> is \<^verbatim>\<open>pickle.load\<close> on a stream
  holding \<open>bs\<close> from its current position: it returns the object or raises.
\<close>

record ('k, 'v) env =
  dumps2 :: "('k, 'v) pydict option \<Rightarrow> bytes"
  dumps_default :: "('k, 'v) pydict option \<Rightarrow> bytes"
  loads :: "bytes \<Rightarrow> exn + ('k, 'v) pydict"
  PAGESIZE :: nat
  PAGE_SIZE :: nat
  sha512 :: "bytes \<Rightarrow> bytes"
  canonical_path :: "pystr \<Rightarrow> pystr"
  repr_dict :: "('k, 'v) pydict \<Rightarrow> string"

subsection \<open>World and handle\<close>

text \<open>
  \<open>holder_releases_in\<close> is the environment's part in a timed wait: the time after which
  the current holder of the semaphore posts it, if it ever does. \<open>pfile\<close> is the content
  of the file at the handle's persistence path when it can be opened for reading, and
  \<open>pfile_writable\<close> says whether it can be opened for writing.
\<close>

record ('k, 'v) world =
  sem_exists :: bool
  sem_value :: nat
  holder_releases_in :: "nat option"
  shm_exists :: bool
  shm_bytes :: bytes
  pfile :: "bytes option"
  pfile_writable :: bool
  heap :: "addr \<rightharpoonup> ('k, 'v) pydict"
  next_addr :: addr

text \<open>
  The attributes set by \<^verbatim>\<open>__init__\<close>. \<open>semaphore_obj\<close> and \<open>map_file_obj\<close> say whether
  \<^verbatim>\<open>_semaphore\<close> and \<^verbatim>\<open>_map_file\<close> are set; \<open>thread_local h t\<close> is the attribute
  \<^verbatim>\<open>semaphore\<close> of the \<^verbatim>\<open>threading.local\<close> object as thread \<open>t\<close> sees it, \<open>None\<close> when
  that thread never assigned it; \<open>internal_dict\<close> is a reference into the heap.
\<close>

record handle =
  name :: pystr
  persist_file :: "pystr option"
  lock_timeout :: nat
  auto_unlock :: bool
  semaphore_obj :: bool
  map_file_obj :: bool
  thread_local :: "tid \<Rightarrow> bool option"
  internal_dict :: "addr option"
  dirty :: bool

type_synonym ('k, 'v, 'r) res = "(exn + 'r) \<times> ('k, 'v) world \<times> handle"

text \<open>The parts of a result.\<close>

abbreviation outcome :: "('k, 'v, 'r) res \<Rightarrow> exn + 'r" where
  "outcome r \<equiv> fst r"

abbreviation world_of :: "('k, 'v, 'r) res \<Rightarrow> ('k, 'v) world" where
  "world_of r \<equiv> fst (snd r)"

abbreviation handle_of :: "('k, 'v, 'r) res \<Rightarrow> handle" where
  "handle_of r \<equiv> snd (snd r)"

text \<open>\<^verbatim>\<open>__init__\<close>, run by thread \<open>t\<close>.\<close>

definition init :: "('k, 'v) env \<Rightarrow> tid \<Rightarrow> pystr \<Rightarrow> bool \<Rightarrow> nat \<Rightarrow> bool \<Rightarrow> handle" where
  "init E t nm persist timeout auto =
     \<lparr> name = nm,
       persist_file = (if persist then Some (canonical_path E nm) else None),
       lock_timeout = timeout,
       auto_unlock = auto,
       semaphore_obj = False,
       map_file_obj = False,
       thread_local = (\<lambda>_. None)(t \<mapsto> False),
       internal_dict = None,
       dirty = False \<rparr>"

text \<open>The value of the cache attribute: \<open>None\<close> for Python's \<^verbatim>\<open>None\<close>.\<close>

definition cache_val :: "('k, 'v) world \<Rightarrow> handle \<Rightarrow> ('k, 'v) pydict option" where
  "cache_val w h = (case internal_dict h of None \<Rightarrow> None | Some a \<Rightarrow> heap w a)"

subsection \<open>Naming\<close>

text \<open>
  \<^verbatim>\<open>str.encode("utf-8")\<close>: one to four bytes per code point; a surrogate code point
  cannot be encoded and raises.
\<close>

definition surrogate :: "nat \<Rightarrow> bool" where
  "surrogate c \<longleftrightarrow> 0xD800 \<le> c \<and> c < 0xE000"

definition utf8_char :: "nat \<Rightarrow> exn + bytes" where
  "utf8_char c =
     (if c < 0x80 then Inr [of_nat c]
      else if c < 0x800 then Inr [of_nat (0xC0 + c div 64), of_nat (0x80 + c mod 64)]
      else if surrogate c then Inl UnicodeEncodeError
      else if c < 0x10000 then
        Inr [of_nat (0xE0 + c div 4096), of_nat (0x80 + c div 64 mod 64), of_nat (0x80 + c mod 64)]
      else
        Inr [of_nat (0xF0 + c div 262144), of_nat (0x80 + c div 4096 mod 64),
             of_nat (0x80 + c div 64 mod 64), of_nat (0x80 + c mod 64)])"

fun utf8_encode :: "pystr \<Rightarrow> exn + bytes" where
  "utf8_encode [] = Inr []"
| "utf8_encode (c # cs) =
     (case utf8_char c of
        Inl e \<Rightarrow> Inl e
      | Inr bs \<Rightarrow> (case utf8_encode cs of Inl e \<Rightarrow> Inl e | Inr rest \<Rightarrow> Inr (bs @ rest)))"

definition b64url_alphabet :: string where
  "b64url_alphabet = ''ABCDEFGHIJKLMNOPQRSTUVWXYZabcdefghijklmnopqrstuvwxyz0123456789-_''"

definition b64_char :: "nat \<Rightarrow> char" where
  "b64_char i = b64url_alphabet ! i"

text \<open>\<^verbatim>\<open>base64.urlsafe_b64encode\<close>: three bytes give four characters, the rest is padded.\<close>

fun urlsafe_b64encode :: "bytes \<Rightarrow> string" where
  "urlsafe_b64encode [] = []"
| "urlsafe_b64encode [a] =
     [b64_char (unat a div 4), b64_char (unat a mod 4 * 16), CHR ''='', CHR ''='']"
| "urlsafe_b64encode [a, b] =
     [b64_char (unat a div 4), b64_char (unat a mod 4 * 16 + unat b div 16),
      b64_char (unat b mod 16 * 4), CHR ''='']"
| "urlsafe_b64encode (a # b # c # rest) =
     [b64_char (unat a div 4), b64_char (unat a mod 4 * 16 + unat b div 16),
      b64_char (unat b mod 16 * 4 + unat c div 64), b64_char (unat c mod 64)]
     @ urlsafe_b64encode rest"

text \<open>
  \<^verbatim>\<open>"/{}".format(b)\<close> for a bytes object \<open>b\<close>: Python 3 formats bytes through their
  \<^verbatim>\<open>repr\<close>, the letter b and the content between single quotes (the characters of a
  base64 encoding need no escape).
\<close>

definition format_bytes :: "string \<Rightarrow> string" where
  "format_bytes s = CHR ''b'' # CHR 0x27 # s @ [CHR 0x27]"

text \<open>\<^verbatim>\<open>_safe_name\<close>; the role tag and the name are joined by an underscore.\<close>

definition safe_name :: "('k, 'v) env \<Rightarrow> pystr \<Rightarrow> pystr \<Rightarrow> exn + string" where
  "safe_name E prefix nm =
     (case utf8_encode (prefix @ [0x5F] @ nm) of
        Inl e \<Rightarrow> Inl e
      | Inr bs \<Rightarrow> Inr (CHR ''/'' # format_bytes (urlsafe_b64encode (sha512 E bs))))"

definition sem_tag :: pystr where
  "sem_tag = [0x73, 0x65, 0x6D]"

definition shm_tag :: pystr where
  "shm_tag = [0x73, 0x68, 0x6D]"

definition safe_sem_name :: "('k, 'v) env \<Rightarrow> handle \<Rightarrow> exn + string" where
  "safe_sem_name E h = safe_name E sem_tag (name h)"

definition safe_shm_name :: "('k, 'v) env \<Rightarrow> handle \<Rightarrow> exn + string" where
  "safe_shm_name E h = safe_name E shm_tag (name h)"

subsection \<open>The mapped segment\<close>

text \<open>
  The size \<^verbatim>\<open>map_file\<close> asks for:
  \<^verbatim>\<open>int(ceil(float(n) / mmap.PAGESIZE) * mmap.PAGESIZE)\<close>. The float division is exact
  for every length below \<open>2 ^ 53\<close>, which is where the model stands.
\<close>

definition page_round :: "nat \<Rightarrow> nat \<Rightarrow> nat" where
  "page_round p n = (if n mod p = 0 then n div p else n div p + 1) * p"

text \<open>
  \<^verbatim>\<open>mmap.resize(n)\<close> and \<^verbatim>\<open>ftruncate\<close>: the object is cut to \<open>n\<close> bytes or extended
  with zero bytes.
\<close>

definition mmap_resize :: "nat \<Rightarrow> bytes \<Rightarrow> bytes" where
  "mmap_resize n bs = take n bs @ replicate (n - length bs) 0"

text \<open>
  Writing at offset 0 of the mapping; \<^verbatim>\<open>mmap.write\<close> raises \<^verbatim>\<open>ValueError\<close> when the
  data do not fit.
\<close>

definition mmap_write :: "bytes \<Rightarrow> bytes \<Rightarrow> exn + bytes" where
  "mmap_write data bs =
     (if length data \<le> length bs then Inr (data @ drop (length data) bs) else Inl ValueError)"

text \<open>
  The property \<^verbatim>\<open>shared_mem\<close>. An existing segment is opened with
  \<^verbatim>\<open>size=len(pickle.dumps(cache))\<close>, and \<^verbatim>\<open>posix_ipc\<close> truncates the segment it opens to
  a size that is not zero; a missing one is created with one page.
\<close>

definition shared_mem :: "('k, 'v) env \<Rightarrow> ('k, 'v) world \<Rightarrow> handle \<Rightarrow> ('k, 'v) world" where
  "shared_mem E w h =
     (if shm_exists w then
        (let n = length (dumps_default E (cache_val w h))
         in if n = 0 then w else w\<lparr>shm_bytes := mmap_resize n (shm_bytes w)\<rparr>)
      else w\<lparr>shm_exists := True, shm_bytes := replicate (PAGE_SIZE E) 0\<rparr>)"

text \<open>
  The property \<^verbatim>\<open>map_file\<close>. The first access reads \<^verbatim>\<open>shared_mem\<close> three times (for
  the descriptor, for the size, to close the descriptor); every access resizes the
  mapping, and the segment under it, to the page-rounded length of the pickled cache.
\<close>

definition map_file ::
  "('k, 'v) env \<Rightarrow> ('k, 'v) world \<Rightarrow> handle \<Rightarrow> ('k, 'v) world \<times> handle" where
  "map_file E w h =
     (let w1 = (if map_file_obj h then w
                else shared_mem E (shared_mem E (shared_mem E w h) h) h);
          h1 = h\<lparr>map_file_obj := True\<rparr>;
          n = page_round (PAGESIZE E) (length (dumps2 E (cache_val w1 h1)))
      in (w1\<lparr>shm_bytes := mmap_resize n (shm_bytes w1)\<rparr>, h1))"

subsection \<open>Load and save\<close>

text \<open>Binding the cache attribute to a newly created dictionary object.\<close>

definition new_dict ::
  "('k, 'v) pydict \<Rightarrow> ('k, 'v) world \<Rightarrow> handle \<Rightarrow> ('k, 'v) world \<times> handle" where
  "new_dict d w h =
     (w\<lparr>heap := (heap w)(next_addr w \<mapsto> d), next_addr := Suc (next_addr w)\<rparr>,
      h\<lparr>internal_dict := Some (next_addr w)\<rparr>)"

text \<open>
  \<^verbatim>\<open>__load_dict\<close>, in its three steps. The first unpickles the segment from offset 0 and
  passes over \<^verbatim>\<open>KeyError\<close>, \<^verbatim>\<open>UnpicklingError\<close> and \<^verbatim>\<open>EOFError\<close>; any other exception of
  the unpickler leaves the method.
\<close>

definition load_segment ::
  "('k, 'v) env \<Rightarrow> ('k, 'v) world \<Rightarrow> handle \<Rightarrow> ('k, 'v, unit) res" where
  "load_segment E w h =
     (let (w1, h1) = map_file E w h;
          (w2, h2) = map_file E w1 h1
      in case loads E (shm_bytes w2) of
           Inr d \<Rightarrow> (let (w3, h3) = new_dict d w2 h2 in (Inr (), w3, h3))
         | Inl e \<Rightarrow>
             if e = KeyError \<or> e = UnpicklingError \<or> e = EOFError then (Inr (), w2, h2)
             else (Inl e, w2, h2))"

text \<open>
  The second step runs when the cache attribute is still \<^verbatim>\<open>None\<close> and a persistence
  path is set: a file that cannot be opened is passed over (\<^verbatim>\<open>IOError\<close>), a file that
  cannot be unpickled raises.
\<close>

definition load_persist ::
  "('k, 'v) env \<Rightarrow> ('k, 'v) world \<Rightarrow> handle \<Rightarrow> ('k, 'v, unit) res" where
  "load_persist E w h =
     (if internal_dict h = None \<and> persist_file h \<noteq> None then
        (case pfile w of
           None \<Rightarrow> (Inr (), w, h)
         | Some bs \<Rightarrow>
             (case loads E bs of
                Inr d \<Rightarrow> (let (w1, h1) = new_dict d w h in (Inr (), w1, h1))
              | Inl e \<Rightarrow> (Inl e, w, h)))
      else (Inr (), w, h))"

definition load_empty :: "('k, 'v) world \<Rightarrow> handle \<Rightarrow> ('k, 'v, unit) res" where
  "load_empty w h =
     (if internal_dict h = None then (let (w1, h1) = new_dict [] w h in (Inr (), w1, h1))
      else (Inr (), w, h))"

definition load_dict ::
  "('k, 'v) env \<Rightarrow> ('k, 'v) world \<Rightarrow> handle \<Rightarrow> ('k, 'v, unit) res" where
  "load_dict E w h =
     (case load_segment E w h of
        (Inl e, w1, h1) \<Rightarrow> (Inl e, w1, h1)
      | (Inr _, w1, h1) \<Rightarrow>
          (case load_persist E w1 h1 of
             (Inl e, w2, h2) \<Rightarrow> (Inl e, w2, h2)
           | (Inr _, w2, h2) \<Rightarrow> load_empty w2 h2))"

text \<open>
  \<^verbatim>\<open>__save_dict\<close>. With the dirty flag set the pickled cache is written at offset 0 of
  the resized mapping and then, when a persistence path is set, to the file, which is
  opened for writing first. The flag is cleared on the last line, which an exception
  does not reach.
\<close>

definition save_dict ::
  "('k, 'v) env \<Rightarrow> ('k, 'v) world \<Rightarrow> handle \<Rightarrow> ('k, 'v, unit) res" where
  "save_dict E w h =
     (if dirty h then
        (let (w1, h1) = map_file E w h;
             (w2, h2) = map_file E w1 h1;
             data = dumps2 E (cache_val w2 h2)
         in case mmap_write data (shm_bytes w2) of
              Inl e \<Rightarrow> (Inl e, w2, h2)
            | Inr bs \<Rightarrow>
                (let w3 = w2\<lparr>shm_bytes := bs\<rparr>
                 in if persist_file h2 \<noteq> None then
                      (if pfile_writable w3
                       then (Inr (), w3\<lparr>pfile := Some data\<rparr>, h2\<lparr>dirty := False\<rparr>)
                       else (Inl IOError, w3, h2))
                    else (Inr (), w3, h2\<lparr>dirty := False\<rparr>)))
      else (Inr (), w, h\<lparr>dirty := False\<rparr>))"

subsection \<open>The lock\<close>

text \<open>The property \<^verbatim>\<open>semaphore\<close>: open the named semaphore, or create it with value 1.\<close>

definition semaphore ::
  "('k, 'v) world \<Rightarrow> handle \<Rightarrow> ('k, 'v) world \<times> handle" where
  "semaphore w h =
     (if semaphore_obj h then (w, h)
      else if sem_exists w then (w, h\<lparr>semaphore_obj := True\<rparr>)
      else (w\<lparr>sem_exists := True, sem_value := 1\<rparr>, h\<lparr>semaphore_obj := True\<rparr>))"

text \<open>
  \<^verbatim>\<open>Semaphore.acquire(timeout)\<close>: a positive value is taken at once; otherwise a timeout
  of zero fails at once, and a positive timeout succeeds when the holder posts the
  semaphore before it runs out.
\<close>

definition sem_acquire :: "nat \<Rightarrow> ('k, 'v) world \<Rightarrow> exn + ('k, 'v) world" where
  "sem_acquire timeout w =
     (if 0 < sem_value w then Inr (w\<lparr>sem_value := sem_value w - 1\<rparr>)
      else if 0 < timeout \<and>
              (case holder_releases_in w of None \<Rightarrow> False | Some d \<Rightarrow> d < timeout)
      then Inr (w\<lparr>holder_releases_in := None\<rparr>)
      else Inl BusyError)"

definition sem_release :: "('k, 'v) world \<Rightarrow> ('k, 'v) world" where
  "sem_release w = w\<lparr>sem_value := sem_value w + 1\<rparr>"

definition set_held :: "tid \<Rightarrow> bool \<Rightarrow> handle \<Rightarrow> handle" where
  "set_held t b h = h\<lparr>thread_local := (thread_local h)(t \<mapsto> b)\<rparr>"

text \<open>
  \<^verbatim>\<open>_acquire_lock\<close>, run by thread \<open>t\<close>. Reading the flag in a thread that never
  assigned it raises \<^verbatim>\<open>AttributeError\<close>. The call of \<^verbatim>\<open>__load_dict\<close> stands after the
  conditional, not inside it.
\<close>

definition acquire_lock ::
  "('k, 'v) env \<Rightarrow> tid \<Rightarrow> ('k, 'v) world \<Rightarrow> handle \<Rightarrow> ('k, 'v, unit) res" where
  "acquire_lock E t w h =
     (case thread_local h t of
        None \<Rightarrow> (Inl AttributeError, w, h)
      | Some held \<Rightarrow>
          if \<not> held then
            (let (w1, h1) = semaphore w h
             in case sem_acquire (lock_timeout h1) w1 of
                  Inr w2 \<Rightarrow> load_dict E w2 (set_held t True h1)
                | Inl e \<Rightarrow>
                    if auto_unlock h1 then load_dict E w1 (set_held t True h1)
                    else (Inl e, w1, h1))
          else load_dict E w h)"

text \<open>\<^verbatim>\<open>_release_lock\<close>, run by thread \<open>t\<close>.\<close>

definition release_lock ::
  "('k, 'v) env \<Rightarrow> tid \<Rightarrow> ('k, 'v) world \<Rightarrow> handle \<Rightarrow> ('k, 'v, unit) res" where
  "release_lock E t w h =
     (case thread_local h t of
        None \<Rightarrow> (Inl AttributeError, w, h)
      | Some held \<Rightarrow>
          if held then
            (case save_dict E w h of
               (Inl e, w1, h1) \<Rightarrow> (Inl e, w1, h1)
             | (Inr _, w1, h1) \<Rightarrow>
                 (let (w2, h2) = semaphore w1 h1
                  in (Inr (), sem_release w2, set_held t False h2)))
          else (Inr (), w, h))"

text \<open>
  The context manager \<^verbatim>\<open>exclusive_lock\<close>: acquire, run the body, release. The generator
  has no \<^verbatim>\<open>try\<close>/\<^verbatim>\<open>finally\<close>, so an exception of the body leaves without the release.
\<close>

definition exclusive_lock ::
  "('k, 'v) env \<Rightarrow> tid \<Rightarrow> (('k, 'v) world \<Rightarrow> handle \<Rightarrow> ('k, 'v, 'r) res) \<Rightarrow>
   ('k, 'v) world \<Rightarrow> handle \<Rightarrow> ('k, 'v, 'r) res" where
  "exclusive_lock E t body w h =
     (case acquire_lock E t w h of
        (Inl e, w1, h1) \<Rightarrow> (Inl e, w1, h1)
      | (Inr _, w1, h1) \<Rightarrow>
          (case body w1 h1 of
             (Inl e, w2, h2) \<Rightarrow> (Inl e, w2, h2)
           | (Inr r, w2, h2) \<Rightarrow>
               (case release_lock E t w2 h2 of
                  (Inl e, w3, h3) \<Rightarrow> (Inl e, w3, h3)
                | (Inr _, w3, h3) \<Rightarrow> (Inr r, w3, h3))))"

subsection \<open>The mapping operations\<close>

definition dict_set :: "('k, 'v) pydict \<Rightarrow> 'k \<Rightarrow> 'v \<Rightarrow> ('k, 'v) pydict" where
  "dict_set d k v =
     (if map_of d k = None then d @ [(k, v)]
      else map (\<lambda>(k', v'). if k' = k then (k', v) else (k', v')) d)"

definition dict_del :: "('k, 'v) pydict \<Rightarrow> 'k \<Rightarrow> ('k, 'v) pydict" where
  "dict_del d k = filter (\<lambda>(k', v'). k' \<noteq> k) d"

text \<open>
  The object the cache attribute refers to; \<open>e\<close> is what Python raises for the same
  expression on \<^verbatim>\<open>None\<close>.
\<close>

definition with_cache ::
  "exn \<Rightarrow> ('k, 'v) world \<Rightarrow> handle \<Rightarrow> (addr \<Rightarrow> ('k, 'v) pydict \<Rightarrow> ('k, 'v, 'r) res) \<Rightarrow>
   ('k, 'v, 'r) res" where
  "with_cache e w h f =
     (case internal_dict h of
        None \<Rightarrow> (Inl e, w, h)
      | Some a \<Rightarrow> (case heap w a of None \<Rightarrow> (Inl e, w, h) | Some d \<Rightarrow> f a d))"

text \<open>
  The body of \<^verbatim>\<open>__setitem__\<close>: the entry is stored in the object the cache refers to,
  then the dirty flag is set.
\<close>

definition setitem_body ::
  "'k \<Rightarrow> 'v \<Rightarrow> ('k, 'v) world \<Rightarrow> handle \<Rightarrow> ('k, 'v, unit) res" where
  "setitem_body k v w h =
     with_cache TypeError w h (\<lambda>a d.
       (Inr (), w\<lparr>heap := (heap w)(a \<mapsto> dict_set d k v)\<rparr>, h\<lparr>dirty := True\<rparr>))"

definition setitem ::
  "('k, 'v) env \<Rightarrow> tid \<Rightarrow> 'k \<Rightarrow> 'v \<Rightarrow> ('k, 'v) world \<Rightarrow> handle \<Rightarrow> ('k, 'v, unit) res" where
  "setitem E t k v = exclusive_lock E t (setitem_body k v)"

definition getitem ::
  "('k, 'v) env \<Rightarrow> tid \<Rightarrow> 'k \<Rightarrow> ('k, 'v) world \<Rightarrow> handle \<Rightarrow> ('k, 'v, 'v) res" where
  "getitem E t k =
     exclusive_lock E t (\<lambda>w h.
       with_cache TypeError w h (\<lambda>a d.
         (case map_of d k of None \<Rightarrow> (Inl KeyError, w, h) | Some v \<Rightarrow> (Inr v, w, h))))"

definition repr ::
  "('k, 'v) env \<Rightarrow> tid \<Rightarrow> ('k, 'v) world \<Rightarrow> handle \<Rightarrow> ('k, 'v, string) res" where
  "repr E t =
     exclusive_lock E t (\<lambda>w h.
       (case cache_val w h of
          None \<Rightarrow> (Inr ''None'', w, h)
        | Some d \<Rightarrow> (Inr (repr_dict E d), w, h)))"

definition len ::
  "('k, 'v) env \<Rightarrow> tid \<Rightarrow> ('k, 'v) world \<Rightarrow> handle \<Rightarrow> ('k, 'v, nat) res" where
  "len E t =
     exclusive_lock E t (\<lambda>w h. with_cache TypeError w h (\<lambda>a d. (Inr (length d), w, h)))"

definition delitem ::
  "('k, 'v) env \<Rightarrow> tid \<Rightarrow> 'k \<Rightarrow> ('k, 'v) world \<Rightarrow> handle \<Rightarrow> ('k, 'v, unit) res" where
  "delitem E t k =
     exclusive_lock E t (\<lambda>w h.
       with_cache TypeError w h (\<lambda>a d.
         (case map_of d k of
            None \<Rightarrow> (Inl KeyError, w, h)
          | Some _ \<Rightarrow>
              (Inr (), w\<lparr>heap := (heap w)(a \<mapsto> dict_del d k)\<rparr>, h\<lparr>dirty := True\<rparr>))))"

definition clear ::
  "('k, 'v) env \<Rightarrow> tid \<Rightarrow> ('k, 'v) world \<Rightarrow> handle \<Rightarrow> ('k, 'v, unit) res" where
  "clear E t =
     exclusive_lock E t (\<lambda>w h.
       (let h1 = h\<lparr>dirty := True\<rparr>
        in with_cache AttributeError w h1 (\<lambda>a d.
             (Inr (), w\<lparr>heap := (heap w)(a \<mapsto> [])\<rparr>, h1))))"

text \<open>\<^verbatim>\<open>copy\<close> returns a new dictionary, given here by its value.\<close>

definition copy ::
  "('k, 'v) env \<Rightarrow> tid \<Rightarrow> ('k, 'v) world \<Rightarrow> handle \<Rightarrow> ('k, 'v, ('k, 'v) pydict) res" where
  "copy E t =
     exclusive_lock E t (\<lambda>w h. with_cache AttributeError w h (\<lambda>a d. (Inr d, w, h)))"

definition has_key ::
  "('k, 'v) env \<Rightarrow> tid \<Rightarrow> 'k \<Rightarrow> ('k, 'v) world \<Rightarrow> handle \<Rightarrow> ('k, 'v, bool) res" where
  "has_key E t k =
     exclusive_lock E t (\<lambda>w h.
       with_cache TypeError w h (\<lambda>a d. (Inr (map_of d k \<noteq> None), w, h)))"

definition contains ::
  "('k, 'v) env \<Rightarrow> tid \<Rightarrow> 'k \<Rightarrow> ('k, 'v) world \<Rightarrow> handle \<Rightarrow> ('k, 'v, bool) res" where
  "contains E t k =
     exclusive_lock E t (\<lambda>w h.
       with_cache TypeError w h (\<lambda>a d. (Inr (map_of d k \<noteq> None), w, h)))"

subsection \<open>Key iteration\<close>

text \<open>
  \<^verbatim>\<open>iter(d)\<close> on a dictionary gives the built-in key iterator: a reference to the
  dictionary object, the number of entries it had when the iterator was made, and a
  position. Each step reads the object as it is then: a changed number of entries raises
  \<^verbatim>\<open>RuntimeError\<close>, the end of the entries stops the iteration (\<open>Inr None\<close>).
\<close>

record dict_iter =
  it_dict :: addr
  it_used :: nat
  it_pos :: nat

definition iter_next ::
  "('k, 'v) world \<Rightarrow> dict_iter \<Rightarrow> (exn + 'k option) \<times> dict_iter" where
  "iter_next w it =
     (case heap w (it_dict it) of
        None \<Rightarrow> (Inl RuntimeError, it)
      | Some d \<Rightarrow>
          if length d \<noteq> it_used it then (Inl RuntimeError, it)
          else if it_pos it < length d
          then (Inr (Some (fst (d ! it_pos it))), it\<lparr>it_pos := Suc (it_pos it)\<rparr>)
          else (Inr None, it))"

text \<open>\<^verbatim>\<open>list(it)\<close>: the keys an iterator yields until it stops or raises.\<close>

function iter_list :: "('k, 'v) world \<Rightarrow> dict_iter \<Rightarrow> exn + 'k list" where
  "iter_list w it =
     (case iter_next w it of
        (Inl e, it') \<Rightarrow> Inl e
      | (Inr None, it') \<Rightarrow> Inr []
      | (Inr (Some k), it') \<Rightarrow>
          (case iter_list w it' of Inl e \<Rightarrow> Inl e | Inr ks \<Rightarrow> Inr (k # ks)))"
  by pat_completeness auto
termination
  by (relation "measure (\<lambda>(w, it). it_used it - it_pos it)")
     (auto simp: iter_next_def split: option.splits if_splits)

text \<open>\<^verbatim>\<open>__iter__\<close>: the iterator is made inside the lock and returned.\<close>

definition iter ::
  "('k, 'v) env \<Rightarrow> tid \<Rightarrow> ('k, 'v) world \<Rightarrow> handle \<Rightarrow> ('k, 'v, dict_iter) res" where
  "iter E t =
     exclusive_lock E t (\<lambda>w h.
       with_cache TypeError w h (\<lambda>a d.
         (Inr \<lparr>it_dict = a, it_used = length d, it_pos = 0\<rparr>, w, h)))"

subsection \<open>The legal names of the specification\<close>

text \<open>
  The characters the specification allows after the leading separator: the base64url
  alphabet and its padding character.
\<close>

definition b64url_legal :: "char \<Rightarrow> bool" where
  "b64url_legal c = (c \<in> set b64url_alphabet \<or> c = CHR ''='')"

definition name_legal :: "exn + string \<Rightarrow> bool" where
  "name_legal r =
     (case r of
        Inl e \<Rightarrow> False
      | Inr s \<Rightarrow> (case s of [] \<Rightarrow> False | c # cs \<Rightarrow> c = CHR ''/'' \<and> list_all b64url_legal cs))"

subsection \<open>A small instance of the environment\<close>

text \<open>
  To run the model the parameters need values. The instance below is a platform with
  pages of 16 bytes and a codec for dictionaries from bytes to bytes that writes one
  opcode for the empty dictionary, three per entry and one to stop, reads a stream up to
  the stop opcode, and raises as an unpickler does: \<^verbatim>\<open>EOFError\<close> at the end of the input,
  \<^verbatim>\<open>ValueError\<close> for a protocol header it does not support, \<^verbatim>\<open>UnpicklingError\<close> for any
  other byte it cannot read. The digest is constant: nothing proved here depends on it.
\<close>

fun demo_items :: "(byte, byte) pydict \<Rightarrow> bytes" where
  "demo_items [] = []"
| "demo_items ((k, v) # d) = [0x4B, k, 0x4B, v, 0x73] @ demo_items d"

definition demo_dumps :: "(byte, byte) pydict option \<Rightarrow> bytes" where
  "demo_dumps c = (case c of None \<Rightarrow> [0x4E, 0x2E] | Some d \<Rightarrow> 0x7D # demo_items d @ [0x2E])"

fun demo_parse :: "bytes \<Rightarrow> (byte, byte) pydict \<Rightarrow> exn + (byte, byte) pydict" where
  "demo_parse [] acc = Inl EOFError"
| "demo_parse (b # bs) acc =
     (if b = 0x2E then Inr acc
      else if b = 0x4B then
        (case bs of
           k # b2 # v # b3 # rest \<Rightarrow>
             if b2 = 0x4B \<and> b3 = 0x73 then demo_parse rest (dict_set acc k v)
             else Inl UnpicklingError
         | _ \<Rightarrow> Inl EOFError)
      else Inl UnpicklingError)"

definition demo_loads :: "bytes \<Rightarrow> exn + (byte, byte) pydict" where
  "demo_loads bs =
     (case bs of
        [] \<Rightarrow> Inl EOFError
      | b # rest \<Rightarrow>
          if b = 0x7D then demo_parse rest []
          else if b = 0x80 then Inl ValueError
          else Inl UnpicklingError)"

definition demo_env :: "(byte, byte) env" where
  "demo_env =
     \<lparr> dumps2 = demo_dumps,
       dumps_default = demo_dumps,
       loads = demo_loads,
       PAGESIZE = 16,
       PAGE_SIZE = 16,
       sha512 = (\<lambda>bs. replicate 64 0),
       canonical_path = (\<lambda>p. p),
       repr_dict = (\<lambda>d. ''{}'') \<rparr>"

text \<open>A host on which nothing of the logical name exists yet, and no readable file.\<close>

definition fresh_world :: "(byte, byte) world" where
  "fresh_world =
     \<lparr> sem_exists = False, sem_value = 0, holder_releases_in = None,
       shm_exists = False, shm_bytes = [],
       pfile = None, pfile_writable = True,
       heap = Map.empty, next_addr = 0 \<rparr>"

text \<open>Handles made by thread 0 for the name \<^verbatim>\<open>"a"\<close>, with a lock timeout of zero.\<close>

definition vol_handle :: handle where
  "vol_handle = init demo_env 0 [0x61] False 0 False"

definition bypass_handle :: handle where
  "bypass_handle = init demo_env 0 [0x61] False 0 True"

definition per_handle :: handle where
  "per_handle = init demo_env 0 [0x61] True 0 False"

subsection \<open>States and runs of the small instance\<close>

text \<open>
  Thread 0 holds the lock of a new name and has stored the entry \<open>1 \<mapsto> 2\<close> in the cache,
  which is object 0; nothing is saved yet.
\<close>

definition held_world :: "(byte, byte) world" where
  "held_world =
     fresh_world\<lparr>sem_exists := True, sem_value := 0, shm_exists := True,
                 shm_bytes := replicate 16 0, heap := [0 \<mapsto> [(1, 2)]], next_addr := 1\<rparr>"

definition held_handle :: handle where
  "held_handle =
     vol_handle\<lparr>semaphore_obj := True, map_file_obj := True,
                thread_local := (\<lambda>_. None)(0 \<mapsto> True),
                internal_dict := Some 0, dirty := True\<rparr>"

definition held_per_handle :: handle where
  "held_per_handle =
     per_handle\<lparr>semaphore_obj := True, map_file_obj := True,
                thread_local := (\<lambda>_. None)(0 \<mapsto> True),
                internal_dict := Some 0, dirty := True\<rparr>"

text \<open>The same host with a persistence path that cannot be opened for writing.\<close>

definition readonly_world :: "(byte, byte) world" where
  "readonly_world = held_world\<lparr>pfile_writable := False\<rparr>"

text \<open>The same host with the pickled dictionary \<open>9 \<mapsto> 9\<close> in the segment.\<close>

definition stored_world :: "(byte, byte) world" where
  "stored_world = held_world\<lparr>shm_bytes := demo_dumps (Some [(9, 9)]) @ replicate 9 0\<rparr>"

text \<open>A host on which another process holds the semaphore.\<close>

definition busy_world :: "(byte, byte) world" where
  "busy_world = fresh_world\<lparr>sem_exists := True, sem_value := 0\<rparr>"

text \<open>
  Running one call after another on the state the first one leaves, and the dictionary a
  result's handle has cached.
\<close>

definition then_do ::
  "('k, 'v, 'r) res \<Rightarrow> (('k, 'v) world \<Rightarrow> handle \<Rightarrow> ('k, 'v, 's) res) \<Rightarrow>
   ('k, 'v, 's) res" where
  "then_do r f = f (world_of r) (handle_of r)"

definition cache_of :: "('k, 'v, 'r) res \<Rightarrow> ('k, 'v) pydict option" where
  "cache_of r = cache_val (world_of r) (handle_of r)"

text \<open>
  What a call leaves to see: its outcome, the length of the segment, what the segment
  unpickles to, the persistence file, and the dictionary the handle has cached.
\<close>

definition report ::
  "('k, 'v) env \<Rightarrow> ('k, 'v, 'r) res \<Rightarrow>
   (exn + 'r) \<times> nat \<times> (exn + ('k, 'v) pydict) \<times> bytes option \<times> ('k, 'v) pydict option" where
  "report E r =
     (outcome r, length (shm_bytes (world_of r)), loads E (shm_bytes (world_of r)),
      pfile (world_of r), cache_of r)"

text \<open>
  Two handles of one name: the first takes the lock, the second runs into the timeout
  and goes on under \<^verbatim>\<open>auto_unlock\<close>, the second releases, the first releases.
\<close>

definition race_1 :: "(byte, byte, unit) res" where
  "race_1 = acquire_lock demo_env 0 fresh_world vol_handle"

definition race_2 :: "(byte, byte, unit) res" where
  "race_2 = acquire_lock demo_env 0 (world_of race_1) bypass_handle"

definition race_3 :: "(byte, byte, unit) res" where
  "race_3 = then_do race_2 (release_lock demo_env 0)"

definition race_4 :: "(byte, byte, unit) res" where
  "race_4 = release_lock demo_env 0 (world_of race_3) (handle_of race_1)"

text \<open>
  One handle: an entry is stored and saved; the lock is taken again; a second entry is
  stored in the cache under that hold; the lock is asked for once more by the same thread.
\<close>

definition nested_1 :: "(byte, byte, unit) res" where
  "nested_1 = setitem demo_env 0 1 2 fresh_world vol_handle"

definition nested_2 :: "(byte, byte, unit) res" where
  "nested_2 = then_do nested_1 (acquire_lock demo_env 0)"

definition nested_3 :: "(byte, byte, unit) res" where
  "nested_3 = then_do nested_2 (setitem_body 3 4)"

definition nested_4 :: "(byte, byte, unit) res" where
  "nested_4 = then_do nested_3 (acquire_lock demo_env 0)"

text \<open>One handle: three entries are stored, then the dictionary is cleared.\<close>

definition shrink_1 :: "(byte, byte, unit) res" where
  "shrink_1 = setitem demo_env 0 1 1 fresh_world vol_handle"

definition shrink_2 :: "(byte, byte, unit) res" where
  "shrink_2 = then_do shrink_1 (setitem demo_env 0 2 2)"

definition shrink_3 :: "(byte, byte, unit) res" where
  "shrink_3 = then_do shrink_2 (setitem demo_env 0 3 3)"

definition shrink_4 :: "(byte, byte, unit) res" where
  "shrink_4 = then_do shrink_3 (clear demo_env 0)"

text \<open>
  Two persistent handles of one name: the first stores \<open>1 \<mapsto> 2\<close>; the second stores two
  more entries, which takes the segment to two pages; the first asks for the length.
\<close>

definition stale_1 :: "(byte, byte, unit) res" where
  "stale_1 = setitem demo_env 0 1 2 fresh_world per_handle"

definition stale_2 :: "(byte, byte, unit) res" where
  "stale_2 = setitem demo_env 0 7 7 (world_of stale_1) per_handle"

definition stale_3 :: "(byte, byte, unit) res" where
  "stale_3 = then_do stale_2 (setitem demo_env 0 8 8)"

definition stale_4 :: "(byte, byte, nat) res" where
  "stale_4 = len demo_env 0 (world_of stale_3) (handle_of stale_1)"

text \<open>One new handle: the key iterator is taken, then an entry is stored.\<close>

definition live_1 :: "(byte, byte, dict_iter) res" where
  "live_1 = iter demo_env 0 fresh_world vol_handle"

definition live_2 :: "(byte, byte, unit) res" where
  "live_2 = then_do live_1 (setitem demo_env 0 1 2)"

subsection \<open>What a step leaves alone\<close>

definition lock_frame ::
  "('k, 'v) world \<Rightarrow> handle \<Rightarrow> ('k, 'v) world \<Rightarrow> handle \<Rightarrow> bool" where
  "lock_frame w h w' h' \<longleftrightarrow>
     sem_value w' = sem_value w \<and> sem_exists w' = sem_exists w \<and>
     holder_releases_in w' = holder_releases_in w \<and>
     pfile w' = pfile w \<and> pfile_writable w' = pfile_writable w \<and>
     thread_local h' = thread_local h \<and> semaphore_obj h' = semaphore_obj h \<and>
     lock_timeout h' = lock_timeout h \<and> auto_unlock h' = auto_unlock h \<and>
     persist_file h' = persist_file h \<and> dirty h' = dirty h \<and> name h' = name h"

section \<open>Properties\<close>

subsection \<open>Page rounding and the mapped segment\<close>

lemma page_round_ge: "0 < p \<Longrightarrow> n \<le> page_round p n"
proof -
  assume p: "0 < p"
  have eq: "n = n div p * p + n mod p" by simp
  have lt: "n mod p < p" using p by simp
  show ?thesis
  proof (cases "n mod p = 0")
    case True
    with eq show ?thesis by (simp add: page_round_def)
  next
    case False
    have "n \<le> n div p * p + p" using eq lt by linarith
    with False show ?thesis by (simp add: page_round_def)
  qed
qed

lemma page_round_dvd: "p dvd page_round p n"
  by (simp add: page_round_def)

lemma page_round_least:
  assumes "0 < p" "p dvd m" "n \<le> m"
  shows "page_round p n \<le> m"
proof -
  from assms(2) obtain k where m: "m = p * k" by (auto simp: dvd_def)
  show ?thesis
  proof (cases "n mod p = 0")
    case True
    then have "n div p * p = n" by auto
    with True have "page_round p n = n" by (simp add: page_round_def)
    with assms show ?thesis by simp
  next
    case False
    have "n div p < k"
    proof (rule ccontr)
      assume "\<not> n div p < k"
      then have "k \<le> n div p" by simp
      then have "p * k \<le> p * (n div p)" by simp
      also have "\<dots> \<le> n" by simp
      finally have "m = n" using assms(3) m by simp
      with m False show False by simp
    qed
    then have "n div p + 1 \<le> k" by simp
    then have "(n div p + 1) * p \<le> k * p" using mult_le_mono1 by blast
    with False m show ?thesis by (simp add: page_round_def mult.commute)
  qed
qed

lemma length_mmap_resize [simp]: "length (mmap_resize n bs) = n"
  by (simp add: mmap_resize_def)

lemma mmap_resize_same: "n = length bs \<Longrightarrow> mmap_resize n bs = bs"
  by (simp add: mmap_resize_def)

lemma mmap_resize_idem [simp]: "mmap_resize n (mmap_resize n bs) = mmap_resize n bs"
  by (simp add: mmap_resize_same)

lemma mmap_resize_append:
  "length xs \<le> n \<Longrightarrow> mmap_resize n (xs @ ys) = xs @ mmap_resize (n - length xs) ys"
  by (simp add: mmap_resize_def)

lemma shared_mem_heap [simp]: "heap (shared_mem E w h) = heap w"
  by (simp add: shared_mem_def Let_def)

lemma cache_val_cong: "heap w' = heap w \<Longrightarrow> internal_dict h' = internal_dict h \<Longrightarrow> cache_val w' h' = cache_val w h"
  by (cases "internal_dict h") (simp_all add: cache_val_def)

lemma cache_val_shared_mem [simp]: "cache_val (shared_mem E w h') h = cache_val w h"
  by (rule cache_val_cong) simp_all

lemma cache_val_map_file_obj [simp]: "cache_val w (h\<lparr>map_file_obj := b\<rparr>) = cache_val w h"
  by (rule cache_val_cong) simp_all

lemma cache_val_shm_bytes [simp]: "cache_val (w\<lparr>shm_bytes := b\<rparr>) h = cache_val w h"
  by (rule cache_val_cong) simp_all

lemma map_file_length:
  "length (shm_bytes (fst (map_file E w h))) = page_round (PAGESIZE E) (length (dumps2 E (cache_val w h)))"
  by (simp add: map_file_def Let_def)

lemma map_file_snd: "snd (map_file E w h) = h\<lparr>map_file_obj := True\<rparr>"
  by (simp add: map_file_def Let_def)

lemma map_file_heap [simp]: "heap (fst (map_file E w h)) = heap w"
  by (simp add: map_file_def Let_def)

lemma map_file_cache [simp]: "cache_val (fst (map_file E w h)) h' = cache_val w h'"
  by (rule cache_val_cong) simp_all

lemma map_file_idem:
  "map_file E (fst (map_file E w h)) (snd (map_file E w h)) = map_file E w h"
  by (simp add: map_file_def Let_def)

lemma shared_mem_frame:
  "sem_value (shared_mem E w h) = sem_value w"
  "sem_exists (shared_mem E w h) = sem_exists w"
  "holder_releases_in (shared_mem E w h) = holder_releases_in w"
  "pfile (shared_mem E w h) = pfile w"
  "pfile_writable (shared_mem E w h) = pfile_writable w"
  "next_addr (shared_mem E w h) = next_addr w"
  by (simp_all add: shared_mem_def Let_def)

lemma map_file_frame:
  assumes "map_file E w h = (w1, h1)"
  shows "h1 = h\<lparr>map_file_obj := True\<rparr>"
    and "heap w1 = heap w"
    and "next_addr w1 = next_addr w"
    and "sem_value w1 = sem_value w"
    and "sem_exists w1 = sem_exists w"
    and "holder_releases_in w1 = holder_releases_in w"
    and "pfile w1 = pfile w"
    and "pfile_writable w1 = pfile_writable w"
    and "length (shm_bytes w1) = page_round (PAGESIZE E) (length (dumps2 E (cache_val w h)))"
    and "map_file E w1 h1 = (w1, h1)"
    and "cache_val w1 h1 = cache_val w h"
proof -
  from assms have w1: "w1 = fst (map_file E w h)" and h1: "h1 = snd (map_file E w h)"
    by simp_all
  show "h1 = h\<lparr>map_file_obj := True\<rparr>" by (simp add: h1 map_file_snd)
  show "heap w1 = heap w" by (simp add: w1)
  show "next_addr w1 = next_addr w" by (simp add: w1 map_file_def Let_def shared_mem_frame)
  show "sem_value w1 = sem_value w" by (simp add: w1 map_file_def Let_def shared_mem_frame)
  show "sem_exists w1 = sem_exists w" by (simp add: w1 map_file_def Let_def shared_mem_frame)
  show "holder_releases_in w1 = holder_releases_in w"
    by (simp add: w1 map_file_def Let_def shared_mem_frame)
  show "pfile w1 = pfile w" by (simp add: w1 map_file_def Let_def shared_mem_frame)
  show "pfile_writable w1 = pfile_writable w"
    by (simp add: w1 map_file_def Let_def shared_mem_frame)
  show "length (shm_bytes w1) = page_round (PAGESIZE E) (length (dumps2 E (cache_val w h)))"
    by (simp add: w1 map_file_length)
  show "map_file E w1 h1 = (w1, h1)"
    using map_file_idem [of E w h] by (simp add: w1 h1)
  show "cache_val w1 h1 = cache_val w h"
    by (simp add: w1 h1 map_file_snd)
qed

lemma save_dict_dirty:
  assumes P: "0 < PAGESIZE E" and d: "dirty h" and m: "map_file E w h = (w1, h1)"
  shows "save_dict E w h =
     (let data = dumps2 E (cache_val w h);
          w3 = w1\<lparr>shm_bytes := data @ drop (length data) (shm_bytes w1)\<rparr>
      in if persist_file h \<noteq> None then
           (if pfile_writable w then (Inr (), w3\<lparr>pfile := Some data\<rparr>, h1\<lparr>dirty := False\<rparr>)
            else (Inl IOError, w3, h1))
         else (Inr (), w3, h1\<lparr>dirty := False\<rparr>))"
proof -
  note f = map_file_frame [OF m]
  have fits: "length (dumps2 E (cache_val w h)) \<le> length (shm_bytes w1)"
    by (simp add: f(9) page_round_ge [OF P])
  have ph: "persist_file h1 = persist_file h" by (simp add: f(1))
  show ?thesis
    using d fits by (simp add: save_dict_def m f(10) f(11) f(8) ph mmap_write_def Let_def)
qed

lemma save_dict_clean: "\<not> dirty h \<Longrightarrow> save_dict E w h = (Inr (), w, h\<lparr>dirty := False\<rparr>)"
  by (simp add: save_dict_def)


subsection \<open>What load and save leave alone\<close>

lemma lock_frame_refl [simp]: "lock_frame w h w h"
  by (simp add: lock_frame_def)

lemma lock_frame_trans:
  "lock_frame w h w1 h1 \<Longrightarrow> lock_frame w1 h1 w2 h2 \<Longrightarrow> lock_frame w h w2 h2"
  by (simp add: lock_frame_def)

lemma map_file_lock_frame: "map_file E w h = (w1, h1) \<Longrightarrow> lock_frame w h w1 h1"
  using map_file_frame [of E w h w1 h1] by (simp add: lock_frame_def)

lemma new_dict_lock_frame: "new_dict d w h = (w1, h1) \<Longrightarrow> lock_frame w h w1 h1"
  by (auto simp: new_dict_def lock_frame_def)

lemma load_segment_lock_frame:
  assumes "load_segment E w h = (r, w', h')"
  shows "lock_frame w h w' h'"
proof -
  obtain w1 h1 where m: "map_file E w h = (w1, h1)" by (cases "map_file E w h")
  note f = map_file_frame [OF m]
  have fr: "lock_frame w h w1 h1" by (rule map_file_lock_frame [OF m])
  show ?thesis
  proof (cases "loads E (shm_bytes w1)")
    case (Inl e)
    with assms m f(10) fr show ?thesis
      by (auto simp: load_segment_def split: if_splits)
  next
    case (Inr d)
    obtain w3 h3 where n: "new_dict d w1 h1 = (w3, h3)" by (cases "new_dict d w1 h1")
    from assms m f(10) Inr n have "w' = w3" "h' = h3"
      by (auto simp: load_segment_def)
    with lock_frame_trans [OF fr new_dict_lock_frame [OF n]] show ?thesis by simp
  qed
qed

lemma load_persist_lock_frame:
  "load_persist E w h = (r, w', h') \<Longrightarrow> lock_frame w h w' h'"
  by (auto simp: load_persist_def new_dict_def lock_frame_def
           split: if_splits option.splits sum.splits)

lemma load_empty_lock_frame:
  "load_empty w h = (r, w', h') \<Longrightarrow> lock_frame w h w' h'"
  by (auto simp: load_empty_def new_dict_def lock_frame_def split: if_splits)

lemma load_dict_lock_frame:
  assumes "load_dict E w h = (r, w', h')"
  shows "lock_frame w h w' h'"
proof -
  obtain r1 w1 h1 where s: "load_segment E w h = (r1, w1, h1)"
    by (cases "load_segment E w h")
  obtain r2 w2 h2 where p: "load_persist E w1 h1 = (r2, w2, h2)"
    by (cases "load_persist E w1 h1")
  obtain r3 w3 h3 where e: "load_empty w2 h2 = (r3, w3, h3)"
    by (cases "load_empty w2 h2")
  note f1 = load_segment_lock_frame [OF s]
  note f2 = lock_frame_trans [OF f1 load_persist_lock_frame [OF p]]
  note f3 = lock_frame_trans [OF f2 load_empty_lock_frame [OF e]]
  from assms s p e f1 f2 f3 show ?thesis
    by (auto simp: load_dict_def split: sum.splits)
qed

lemma save_dict_lock_frame_sem:
  assumes "save_dict E w h = (r, w', h')"
  shows "sem_value w' = sem_value w \<and> sem_exists w' = sem_exists w \<and>
         holder_releases_in w' = holder_releases_in w \<and>
         thread_local h' = thread_local h \<and> semaphore_obj h' = semaphore_obj h \<and>
         internal_dict h' = internal_dict h \<and> heap w' = heap w"
proof -
  obtain w1 h1 where m: "map_file E w h = (w1, h1)" by (cases "map_file E w h")
  note f = map_file_frame [OF m]
  from assms m f show ?thesis
    by (auto simp: save_dict_def Let_def split: if_splits sum.splits)
qed

lemma exclusive_lock_foreign:
  "thread_local h t = None \<Longrightarrow> exclusive_lock E t body w h = (Inl AttributeError, w, h)"
  by (simp add: exclusive_lock_def acquire_lock_def)


lemma semaphore_existing:
  "sem_exists w \<Longrightarrow> semaphore w h = (w, h\<lparr>semaphore_obj := True\<rparr>)"
  by (cases "semaphore_obj h") (simp_all add: semaphore_def)


lemma load_dict_segment_ok:
  assumes m: "map_file E w h = (w1, h1)" and l: "loads E (shm_bytes w1) = Inr d"
  shows "load_dict E w h =
           (Inr (), w1\<lparr>heap := (heap w1)(next_addr w1 \<mapsto> d), next_addr := Suc (next_addr w1)\<rparr>,
            h1\<lparr>internal_dict := Some (next_addr w1)\<rparr>)"
  using l by (simp add: load_dict_def load_segment_def m map_file_frame(10) [OF m]
      new_dict_def load_persist_def load_empty_def)

lemma load_dict_segment_caught:
  assumes m: "map_file E w h = (w1, h1)" and l: "loads E (shm_bytes w1) = Inl e"
    and c: "e = KeyError \<or> e = UnpicklingError \<or> e = EOFError"
    and i: "internal_dict h \<noteq> None"
  shows "load_dict E w h = (Inr (), w1, h1)"
proof -
  have "internal_dict h1 \<noteq> None" using i by (simp add: map_file_frame(1) [OF m])
  with l c show ?thesis
    by (auto simp: load_dict_def load_segment_def m map_file_frame(10) [OF m]
        load_persist_def load_empty_def)
qed


lemmas demo_states = held_world_def held_handle_def held_per_handle_def readonly_world_def
  stored_world_def busy_world_def fresh_world_def vol_handle_def bypass_handle_def
  per_handle_def init_def demo_env_def


lemma map_file_fixed:
  assumes "map_file_obj h"
    and "length (shm_bytes w) = page_round (PAGESIZE E) (length (dumps2 E (cache_val w h)))"
  shows "map_file E w h = (w, h)"
  using assms by (simp add: map_file_def Let_def mmap_resize_same)

lemma replicate_num: "replicate (numeral k) x = x # replicate (pred_numeral k) x"
  by (simp add: numeral_eq_Suc)

lemmas model_eval = acquire_lock_def release_lock_def load_dict_def load_segment_def
  load_persist_def load_empty_def save_dict_def map_file_def shared_mem_def semaphore_def
  sem_acquire_def sem_release_def set_held_def new_dict_def cache_val_def mmap_resize_def
  mmap_write_def page_round_def exclusive_lock_def with_cache_def setitem_def setitem_body_def
  clear_def len_def iter_def dict_set_def then_do_def cache_of_def
  demo_dumps_def demo_loads_def iter_next_def replicate_num

text \<open>The runs with several stores, evaluated once.\<close>

lemma stale_run:
  "report demo_env stale_3 =
     (Inr (), 32, Inr [(1, 2), (7, 7), (8, 8)],
      Some (demo_dumps (Some [(1, 2), (7, 7), (8, 8)])), Some [(1, 2), (7, 7), (8, 8)])"
  "report demo_env stale_4 =
     (Inr 1, 16, Inl EOFError,
      Some (demo_dumps (Some [(1, 2), (7, 7), (8, 8)])), Some [(1, 2)])"
  by (simp_all add: report_def stale_1_def stale_2_def stale_3_def stale_4_def demo_states
      model_eval split del: if_split)

lemma shrink_run:
  "report demo_env shrink_3 =
     (Inr (), 32, Inr [(1, 1), (2, 2), (3, 3)], None, Some [(1, 1), (2, 2), (3, 3)])"
  "report demo_env shrink_4 = (Inr (), 16, Inr [], None, Some [])"
  by (simp_all add: report_def shrink_1_def shrink_2_def shrink_3_def shrink_4_def demo_states
      model_eval split del: if_split)

subsection \<open>Names, first loads, iterators\<close>

lemma length_b64url_alphabet: "length b64url_alphabet = 64"
  by (simp add: b64url_alphabet_def)

lemma b64_char_legal: "i < 64 \<Longrightarrow> b64url_legal (b64_char i)"
  by (simp add: b64url_legal_def b64_char_def length_b64url_alphabet)

lemma unat_byte_less: "unat (a :: byte) < 256"
  using unsigned_less [of a, where ?'a = nat] by simp

lemma b64_index_bounds:
  fixes a b c :: byte
  shows "unat a div 4 < 64"
    and "unat a mod 4 * 16 < 64"
    and "unat a mod 4 * 16 + unat b div 16 < 64"
    and "unat b mod 16 * 4 < 64"
    and "unat b mod 16 * 4 + unat c div 64 < 64"
    and "unat c mod 64 < 64"
  using unat_byte_less [of a] unat_byte_less [of b] unat_byte_less [of c]
  by simp_all

lemma urlsafe_b64encode_legal: "list_all b64url_legal (urlsafe_b64encode bs)"
  by (induction bs rule: urlsafe_b64encode.induct)
     (simp_all add: b64_char_legal b64_index_bounds, simp_all add: b64url_legal_def)

lemma utf8_char_cases:
  "utf8_char c = (if surrogate c then Inl UnicodeEncodeError else Inr (projr (utf8_char c)))"
  by (simp add: utf8_char_def surrogate_def)

lemma utf8_encode_ok:
  "\<forall>c \<in> set cs. \<not> surrogate c \<Longrightarrow> \<exists>bs. utf8_encode cs = Inr bs"
proof (induction cs)
  case Nil
  then show ?case by simp
next
  case (Cons c cs)
  then obtain rest where r: "utf8_encode cs = Inr rest" by auto
  have "\<not> surrogate c" using Cons.prems by simp
  then obtain bs where "utf8_char c = Inr bs" using utf8_char_cases [of c] by simp
  with r show ?case by simp
qed

lemma utf8_encode_surrogate:
  "\<exists>c \<in> set cs. surrogate c \<Longrightarrow> utf8_encode cs = Inl UnicodeEncodeError"
proof (induction cs)
  case Nil
  then show ?case by simp
next
  case (Cons c cs)
  show ?case
  proof (cases "surrogate c")
    case True
    then show ?thesis using utf8_char_cases [of c] by simp
  next
    case False
    with Cons have r: "utf8_encode cs = Inl UnicodeEncodeError" by auto
    from False obtain bs where "utf8_char c = Inr bs" using utf8_char_cases [of c] by simp
    with r show ?thesis by simp
  qed
qed

lemma safe_name_encoded:
  "utf8_encode (prefix @ [0x5F] @ nm) = Inr bs \<Longrightarrow>
   safe_name E prefix nm =
     Inr (CHR ''/'' # CHR ''b'' # CHR 0x27 # urlsafe_b64encode (sha512 E bs) @ [CHR 0x27])"
  by (simp add: safe_name_def format_bytes_def)

lemma safe_name_surrogate:
  "\<exists>c \<in> set (prefix @ nm). surrogate c \<Longrightarrow> safe_name E prefix nm = Inl UnicodeEncodeError"
  using utf8_encode_surrogate [of "prefix @ [0x5F] @ nm"] by (auto simp: safe_name_def)

lemma quote_not_legal: "\<not> b64url_legal (CHR 0x27)"
  by (simp add: b64url_legal_def b64url_alphabet_def)

lemma name_legal_third: "name_legal (Inr (c0 # c1 # c2 # cs)) \<Longrightarrow> b64url_legal c2"
  by (simp add: name_legal_def)

lemma load_dict_first_load:
  assumes i: "internal_dict h = None" and m: "map_file E w h = (w1, h1)"
  shows "load_dict E w h =
     (case loads E (shm_bytes w1) of
        Inr d \<Rightarrow> (let (w2, h2) = new_dict d w1 h1 in (Inr (), w2, h2))
      | Inl e \<Rightarrow>
          if e = KeyError \<or> e = UnpicklingError \<or> e = EOFError then
            (if persist_file h \<noteq> None then
               (case pfile w of
                  None \<Rightarrow> (let (w2, h2) = new_dict [] w1 h1 in (Inr (), w2, h2))
                | Some bs \<Rightarrow>
                    (case loads E bs of
                       Inr d \<Rightarrow> (let (w2, h2) = new_dict d w1 h1 in (Inr (), w2, h2))
                     | Inl e' \<Rightarrow> (Inl e', w1, h1)))
             else (let (w2, h2) = new_dict [] w1 h1 in (Inr (), w2, h2)))
          else (Inl e, w1, h1))"
proof -
  note f = map_file_frame [OF m]
  have i1: "internal_dict h1 = None" and p1: "persist_file h1 = persist_file h"
    using i by (simp_all add: f(1))
  show ?thesis
    by (auto simp: load_dict_def load_segment_def m f(10) load_persist_def load_empty_def
        new_dict_def i1 p1 f(7) split: sum.splits option.splits)
qed

lemma iter_list_unchanged:
  assumes "heap w (it_dict it) = Some d" and "it_used it = length d"
  shows "iter_list w it = Inr (map fst (drop (it_pos it) d))"
  using assms
proof (induction "length d - it_pos it" arbitrary: it)
  case 0
  then show ?case by (subst iter_list.simps) (simp add: iter_next_def)
next
  case (Suc n)
  let ?it' = "it\<lparr>it_pos := Suc (it_pos it)\<rparr>"
  from Suc.hyps(2) have lt: "it_pos it < length d" by simp
  have "iter_list w ?it' = Inr (map fst (drop (it_pos ?it') d))"
    using Suc.hyps(2) Suc.prems by (intro Suc.hyps(1)) simp_all
  then have ih: "iter_list w ?it' = Inr (map fst (drop (Suc (it_pos it)) d))" by simp
  have "drop (it_pos it) d = d ! it_pos it # drop (Suc (it_pos it)) d"
    using lt by (simp add: Cons_nth_drop_Suc)
  with ih lt Suc.prems show ?case
    by (subst iter_list.simps) (simp add: iter_next_def)
qed

lemma iter_list_resized:
  "heap w (it_dict it) = Some d' \<Longrightarrow> length d' \<noteq> it_used it \<Longrightarrow>
   iter_list w it = Inl RuntimeError"
  by (subst iter_list.simps) (simp add: iter_next_def)

lemma release_lock_cache:
  assumes "release_lock E t w h = (r, w', h')"
  shows "internal_dict h' = internal_dict h \<and> heap w' = heap w"
proof -
  obtain rs ws hs where s: "save_dict E w h = (rs, ws, hs)" by (cases "save_dict E w h")
  note f = save_dict_lock_frame_sem [OF s]
  from assms s f show ?thesis
    by (auto simp: release_lock_def semaphore_def sem_release_def set_held_def
             split: option.splits if_splits sum.splits)
qed

subsection \<open>Saving\<close>

text \<open>
  Claim C7. A save with the dirty flag set and a persistence path: when the file cannot
  be written the error \<^verbatim>\<open>IOError\<close> reaches the caller and the flag stays set (the file is
  as it was); when it can, the save returns and the flag is cleared; and the flag is
  cleared only with the pickled cache at offset 0 of the segment and in the file.
\<close>

theorem save_persist_failure_surfaces:
  assumes "0 < PAGESIZE E" and "dirty h" and "persist_file h \<noteq> None"
    and "save_dict E w h = (r, w', h')"
  shows "(\<not> pfile_writable w \<longrightarrow> r = Inl IOError \<and> dirty h' \<and> pfile w' = pfile w)
       \<and> (pfile_writable w \<longrightarrow> r = Inr () \<and> \<not> dirty h')
       \<and> (\<not> dirty h' \<longrightarrow>
            r = Inr ()
          \<and> take (length (dumps2 E (cache_val w h))) (shm_bytes w') = dumps2 E (cache_val w h)
          \<and> pfile w' = Some (dumps2 E (cache_val w h)))"
proof -
  obtain w1 h1 where m: "map_file E w h = (w1, h1)" by (cases "map_file E w h")
  note f = map_file_frame [OF m]
  have dh1: "dirty h1" using assms(2) by (simp add: f(1))
  show ?thesis
    using assms(3,4) dh1 f(7)
    by (auto simp: save_dict_dirty [OF assms(1,2) m] Let_def split: if_splits)
qed

theorem save_persist_failure_surfaces_witness:
  "0 < PAGESIZE demo_env \<and> dirty held_per_handle \<and> persist_file held_per_handle \<noteq> None
   \<and> \<not> pfile_writable readonly_world
   \<and> outcome (save_dict demo_env readonly_world held_per_handle) = Inl IOError
   \<and> dirty (handle_of (save_dict demo_env readonly_world held_per_handle))"
  using save_persist_failure_surfaces [of demo_env held_per_handle readonly_world
      "outcome (save_dict demo_env readonly_world held_per_handle)"
      "world_of (save_dict demo_env readonly_world held_per_handle)"
      "handle_of (save_dict demo_env readonly_world held_per_handle)"]
  by (simp add: demo_states)


subsection \<open>Taking the lock\<close>




text \<open>
  Claim C10. The constructor assigns the flag in the constructing thread only. In any
  other thread the flag has no value, and there the lock functions and every operation
  that takes the lock raise \<^verbatim>\<open>AttributeError\<close> with world and handle unchanged: neither
  the semaphore nor the segment is touched, and the operation is not performed.
\<close>

theorem foreign_thread_attribute_error:
  "(t \<noteq> t0 \<longrightarrow> thread_local (init E t0 nm persist timeout auto) t = None)
   \<and> thread_local (init E t0 nm persist timeout auto) t0 = Some False
   \<and> (thread_local h t = None \<longrightarrow>
        acquire_lock E t w h = (Inl AttributeError, w, h)
      \<and> release_lock E t w h = (Inl AttributeError, w, h)
      \<and> setitem E t k v w h = (Inl AttributeError, w, h)
      \<and> getitem E t k w h = (Inl AttributeError, w, h)
      \<and> delitem E t k w h = (Inl AttributeError, w, h)
      \<and> repr E t w h = (Inl AttributeError, w, h)
      \<and> len E t w h = (Inl AttributeError, w, h)
      \<and> clear E t w h = (Inl AttributeError, w, h)
      \<and> copy E t w h = (Inl AttributeError, w, h)
      \<and> has_key E t k w h = (Inl AttributeError, w, h)
      \<and> contains E t k w h = (Inl AttributeError, w, h)
      \<and> iter E t w h = (Inl AttributeError, w, h))"
  by (simp add: init_def acquire_lock_def release_lock_def exclusive_lock_foreign
      setitem_def getitem_def delitem_def repr_def len_def clear_def copy_def
      has_key_def contains_def iter_def)


theorem foreign_thread_attribute_error_witness:
  "(1::nat) \<noteq> 0 \<and> thread_local vol_handle 1 = None
   \<and> len demo_env 1 fresh_world vol_handle = (Inl AttributeError, fresh_world, vol_handle)"
  using foreign_thread_attribute_error [of 1 0 demo_env "[0x61]" False 0 False vol_handle
      fresh_world]
  by (simp add: vol_handle_def)

text \<open>
  Claim C3. A save with the dirty flag set while the cache holds \<open>M\<close>, followed by a load
  through the same handle, for every \<open>M\<close> the codec reads back from a stream that starts
  with its pickle. The save leaves the pickle of \<open>M\<close> at offset 0 of the segment, and the
  segment unpickles to \<open>M\<close>. The load returns, leaves the segment as it is, and binds the
  cache to a new dictionary object, the one it has unpickled, which equals \<open>M\<close>. The save
  itself returns unless a persistence path is set and the file cannot be written.
\<close>

theorem save_then_load_roundtrip:
  assumes P: "0 < PAGESIZE E" and c: "cache_val w h = Some M" and d: "dirty h"
    and codec: "\<forall>rest. loads E (dumps2 E (Some M) @ rest) = Inr M"
    and s: "save_dict E w h = (r, w1, h1)"
    and l: "load_dict E w1 h1 = (r2, w2, h2)"
  shows "take (length (dumps2 E (Some M))) (shm_bytes w1) = dumps2 E (Some M)
       \<and> loads E (shm_bytes w1) = Inr M
       \<and> r2 = Inr ()
       \<and> shm_bytes w2 = shm_bytes w1
       \<and> next_addr w2 = Suc (next_addr w1)
       \<and> internal_dict h2 = Some (next_addr w1)
       \<and> heap w2 (next_addr w1) = Some M
       \<and> cache_val w2 h2 = Some M
       \<and> (persist_file h = None \<or> pfile_writable w \<longrightarrow> r = Inr ())"
proof -
  obtain wm hm where m: "map_file E w h = (wm, hm)" by (cases "map_file E w h")
  note f = map_file_frame [OF m]
  let ?data = "dumps2 E (Some M)"
  have fits: "length ?data \<le> length (shm_bytes wm)"
    by (simp add: f(9) c page_round_ge [OF P])
  from s have w1: "shm_bytes w1 = ?data @ drop (length ?data) (shm_bytes wm)"
    and hp1: "heap w1 = heap wm" and i1: "internal_dict h1 = internal_dict hm"
    and mo: "map_file_obj h1"
    and ok: "persist_file h = None \<or> pfile_writable w \<longrightarrow> r = Inr ()"
    by (auto simp: save_dict_dirty [OF P d m] c Let_def f(1) split: if_splits)
  have cv1: "cache_val w1 h1 = Some M"
    using cache_val_cong [OF hp1 i1] by (simp add: f(11) c)
  have len: "length (shm_bytes w1) = page_round (PAGESIZE E) (length (dumps2 E (cache_val w1 h1)))"
    using fits by (simp add: w1 cv1 f(9) c)
  have mf: "map_file E w1 h1 = (w1, h1)" by (rule map_file_fixed [OF mo len])
  have ld: "loads E (shm_bytes w1) = Inr M" using codec by (simp add: w1)
  have tk: "take (length ?data) (shm_bytes w1) = ?data" by (simp add: w1)
  from load_dict_segment_ok [OF mf ld] l
  have "r2 = Inr ()" and "shm_bytes w2 = shm_bytes w1" and "next_addr w2 = Suc (next_addr w1)"
    and "internal_dict h2 = Some (next_addr w1)" and "heap w2 (next_addr w1) = Some M"
    and "cache_val w2 h2 = Some M"
    by (auto simp: cache_val_def)
  with ok ld tk show ?thesis by simp
qed

theorem save_then_load_roundtrip_witness:
  "0 < PAGESIZE demo_env \<and> cache_val held_world held_handle = Some [(1, 2)]
   \<and> dirty held_handle
   \<and> (\<forall>rest. loads demo_env (dumps2 demo_env (Some [(1, 2)]) @ rest) = Inr [(1, 2)])
   \<and> outcome (save_dict demo_env held_world held_handle) = Inr ()
   \<and> loads demo_env (shm_bytes (world_of (save_dict demo_env held_world held_handle)))
       = Inr [(1, 2)]
   \<and> outcome (then_do (save_dict demo_env held_world held_handle) (load_dict demo_env)) = Inr ()
   \<and> internal_dict
        (handle_of (then_do (save_dict demo_env held_world held_handle) (load_dict demo_env)))
       = Some (next_addr (world_of (save_dict demo_env held_world held_handle)))
   \<and> cache_of (then_do (save_dict demo_env held_world held_handle) (load_dict demo_env))
       = Some [(1, 2)]"
proof -
  let ?s = "save_dict demo_env held_world held_handle"
  let ?l = "then_do ?s (load_dict demo_env)"
  have P: "0 < PAGESIZE demo_env" by (simp add: demo_env_def)
  have c: "cache_val held_world held_handle = Some [(1, 2)]"
    by (simp add: demo_states cache_val_def)
  have d: "dirty held_handle" by (simp add: demo_states)
  have k: "\<forall>rest. loads demo_env (dumps2 demo_env (Some [(1, 2)]) @ rest) = Inr [(1, 2)]"
    by (simp add: demo_env_def demo_dumps_def demo_loads_def dict_set_def)
  have es: "?s = (outcome ?s, world_of ?s, handle_of ?s)" by simp
  have el: "load_dict demo_env (world_of ?s) (handle_of ?s) = (outcome ?l, world_of ?l, handle_of ?l)"
    by (simp add: then_do_def)
  have w: "persist_file held_handle = None" by (simp add: demo_states)
  from save_then_load_roundtrip [OF P c d k es el] w
  have "outcome ?s = Inr () \<and> loads demo_env (shm_bytes (world_of ?s)) = Inr [(1, 2)]
        \<and> outcome ?l = Inr ()
        \<and> internal_dict (handle_of ?l) = Some (next_addr (world_of ?s))
        \<and> cache_of ?l = Some [(1, 2)]"
    unfolding cache_of_def by blast
  with P c d k show ?thesis by blast
qed

subsection \<open>Resizing\<close>

text \<open>
  Claim C5, as the code has it. Every access to the mapped segment resizes it to exactly
  the smallest multiple of the page size that is at least the pickled length of the
  handle's cache at that moment: the result is never below that length, an access that
  is repeated with the same target changes nothing, and nothing keeps the segment from
  shrinking when the target rounds to a smaller multiple. Right after a save with the
  dirty flag set the segment's length is the pickled length of the cached dictionary,
  rounded up to the page size.
\<close>

theorem map_file_resizes_to_page_multiple:
  assumes P: "0 < PAGESIZE E" and m: "map_file E w h = (w1, h1)"
  shows "length (shm_bytes w1) = page_round (PAGESIZE E) (length (dumps2 E (cache_val w h)))
       \<and> length (dumps2 E (cache_val w h)) \<le> length (shm_bytes w1)
       \<and> PAGESIZE E dvd length (shm_bytes w1)
       \<and> (\<forall>n. PAGESIZE E dvd n \<and> length (dumps2 E (cache_val w h)) \<le> n \<longrightarrow>
              length (shm_bytes w1) \<le> n)
       \<and> map_file E w1 h1 = (w1, h1)
       \<and> (\<forall>r w2 h2. dirty h \<and> save_dict E w h = (r, w2, h2) \<longrightarrow>
              length (shm_bytes w2) =
                page_round (PAGESIZE E) (length (dumps2 E (cache_val w2 h2))))"
proof -
  note f = map_file_frame [OF m]
  let ?n = "length (dumps2 E (cache_val w h))"
  have fits: "?n \<le> length (shm_bytes w1)" by (simp add: f(9) page_round_ge [OF P])
  have sv: "length (shm_bytes w2) = page_round (PAGESIZE E) (length (dumps2 E (cache_val w2 h2)))"
    if "dirty h" "save_dict E w h = (r, w2, h2)" for r w2 h2
  proof -
    from that(2) have a: "length (shm_bytes w2) = length (shm_bytes w1)"
      and b: "heap w2 = heap w1" and c: "internal_dict h2 = internal_dict h1"
      using fits by (auto simp: save_dict_dirty [OF P that(1) m] Let_def split: if_splits)
    have "cache_val w2 h2 = cache_val w1 h1" by (rule cache_val_cong [OF b c])
    with a show ?thesis by (simp add: f(9) f(11))
  qed
  from f(9) fits f(10) sv show ?thesis
    by (auto simp: page_round_dvd intro: page_round_least [OF P])
qed

theorem map_file_resizes_to_page_multiple_witness:
  "0 < PAGESIZE demo_env \<and> dirty held_handle
   \<and> length (dumps2 demo_env (cache_val held_world held_handle)) = 7
   \<and> length (shm_bytes (fst (map_file demo_env held_world held_handle))) = 16
   \<and> length (shm_bytes (world_of (save_dict demo_env held_world held_handle))) =
       page_round (PAGESIZE demo_env)
         (length (dumps2 demo_env (cache_of (save_dict demo_env held_world held_handle))))"
proof -
  let ?m = "map_file demo_env held_world held_handle"
  let ?s = "save_dict demo_env held_world held_handle"
  have P: "0 < PAGESIZE demo_env" by (simp add: demo_env_def)
  have d: "dirty held_handle" by (simp add: demo_states)
  have n: "length (dumps2 demo_env (cache_val held_world held_handle)) = 7"
    by (simp add: demo_states cache_val_def demo_dumps_def)
  have em: "?m = (fst ?m, snd ?m)" by simp
  have es: "?s = (outcome ?s, world_of ?s, handle_of ?s)" by simp
  note t = map_file_resizes_to_page_multiple [OF P em]
  have l16: "length (shm_bytes (fst ?m)) = 16"
    using t n by (simp add: page_round_def demo_env_def)
  have sv: "length (shm_bytes (world_of ?s)) =
       page_round (PAGESIZE demo_env) (length (dumps2 demo_env (cache_of ?s)))"
    using t d es unfolding cache_of_def by blast
  from P d n l16 sv show ?thesis by blast
qed

text \<open>
  The claim as stated fails twice. A resize does not only grow the segment, and a smaller
  target does not leave the length unchanged: after three stored entries the segment has
  two pages, and the save that follows \<^verbatim>\<open>clear\<close> resizes it to one. And the length does
  not stay at the rounded pickled length of the dictionary last saved: in the run of two
  handles the second saves three entries into two pages, and the next access of the
  first, whose own cache pickles into one page, cuts the segment to one.
\<close>

theorem resize_shrinks_counterexample:
  "length (shm_bytes (world_of shrink_3)) = 32 \<and> length (shm_bytes (world_of shrink_4)) = 16
   \<and> length (shm_bytes (world_of stale_3)) = 32
   \<and> page_round (PAGESIZE demo_env) (length (dumps2 demo_env (cache_of stale_3))) = 32
   \<and> length (shm_bytes (world_of stale_4)) = 16"
  using shrink_run stale_run
  by (simp add: report_def demo_env_def demo_dumps_def page_round_def)

subsection \<open>Releasing and re-entering the lock\<close>

text \<open>
  Claim C1, as the code has it. A release by a thread whose flag is set (the semaphore
  exists then) saves first. When the save raises, the error reaches the caller, the
  semaphore keeps its value and the flag stays set. Otherwise the semaphore is released
  whatever happened at the acquire, its value rising by one, and the flag is cleared.
\<close>

theorem release_lock_unconditional:
  assumes fl: "thread_local h t = Some True" and ex: "sem_exists w"
    and s: "save_dict E w h = (rs, ws, hs)"
    and rl: "release_lock E t w h = (r, w', h')"
  shows "(\<forall>e. rs = Inl e \<longrightarrow>
            r = Inl e \<and> w' = ws \<and> h' = hs
          \<and> sem_value w' = sem_value w \<and> thread_local h' t = Some True)
       \<and> (rs = Inr () \<longrightarrow>
            r = Inr () \<and> w' = sem_release ws
          \<and> h' = set_held t False (hs\<lparr>semaphore_obj := True\<rparr>)
          \<and> sem_value w' = sem_value w + 1 \<and> thread_local h' t = Some False)"
proof -
  note f = save_dict_lock_frame_sem [OF s]
  have ex': "sem_exists ws" using f ex by simp
  show ?thesis
  proof (cases rs)
    case (Inl e)
    with rl fl s f show ?thesis by (auto simp: release_lock_def)
  next
    case (Inr u)
    with rl fl s f show ?thesis
      by (auto simp: release_lock_def semaphore_existing [OF ex'] sem_release_def set_held_def)
  qed
qed

theorem release_lock_unconditional_witness:
  "thread_local held_handle 0 = Some True \<and> sem_exists held_world
   \<and> outcome (save_dict demo_env held_world held_handle) = Inr ()
   \<and> outcome (release_lock demo_env 0 held_world held_handle) = Inr ()
   \<and> sem_value (world_of (release_lock demo_env 0 held_world held_handle)) = sem_value held_world + 1
   \<and> thread_local (handle_of (release_lock demo_env 0 held_world held_handle)) 0 = Some False
   \<and> thread_local held_per_handle 0 = Some True \<and> sem_exists readonly_world
   \<and> outcome (save_dict demo_env readonly_world held_per_handle) = Inl IOError
   \<and> outcome (release_lock demo_env 0 readonly_world held_per_handle) = Inl IOError
   \<and> sem_value (world_of (release_lock demo_env 0 readonly_world held_per_handle)) = sem_value readonly_world
   \<and> thread_local (handle_of (release_lock demo_env 0 readonly_world held_per_handle)) 0 = Some True"
proof -
  let ?s = "save_dict demo_env held_world held_handle"
  let ?r = "release_lock demo_env 0 held_world held_handle"
  let ?s' = "save_dict demo_env readonly_world held_per_handle"
  let ?r' = "release_lock demo_env 0 readonly_world held_per_handle"
  have a: "thread_local held_handle 0 = Some True" "sem_exists held_world"
    by (simp_all add: demo_states)
  have b: "thread_local held_per_handle 0 = Some True" "sem_exists readonly_world"
    by (simp_all add: demo_states)
  have so: "outcome ?s = Inr ()"
    by (simp add: demo_states model_eval split del: if_split)
  have so': "outcome ?s' = Inl IOError"
    by (simp add: demo_states model_eval split del: if_split)
  have es: "?s = (outcome ?s, world_of ?s, handle_of ?s)" by simp
  have er: "?r = (outcome ?r, world_of ?r, handle_of ?r)" by simp
  have es': "?s' = (outcome ?s', world_of ?s', handle_of ?s')" by simp
  have er': "?r' = (outcome ?r', world_of ?r', handle_of ?r')" by simp
  from release_lock_unconditional [OF a es er] so
  have c: "outcome ?r = Inr () \<and> sem_value (world_of ?r) = sem_value held_world + 1
           \<and> thread_local (handle_of ?r) 0 = Some False"
    by blast
  from release_lock_unconditional [OF b es' er'] so'
  have c': "outcome ?r' = Inl IOError \<and> sem_value (world_of ?r') = sem_value readonly_world
           \<and> thread_local (handle_of ?r') 0 = Some True"
    by blast
  from a b so so' c c' show ?thesis by blast
qed

text \<open>
  The claim as stated, that a release after an acquire that went on under
  \<^verbatim>\<open>auto_unlock\<close> leaves the semaphore alone and that its value never exceeds 1, fails:
  the second handle never took the semaphore (its value stays 0), its release raises the
  value to 1, and the release of the first handle raises it to 2.
\<close>

theorem release_after_bypass_counterexample:
  "outcome race_2 = Inr () \<and> sem_value (world_of race_2) = 0
   \<and> outcome race_3 = Inr () \<and> sem_value (world_of race_3) = 1
   \<and> outcome race_4 = Inr () \<and> sem_value (world_of race_4) = 2"
  by (simp add: race_1_def race_2_def race_3_def race_4_def demo_states model_eval
      split del: if_split)

text \<open>
  Claim C2, as the code has it. An acquire by a thread that already holds the lock does
  not touch the semaphore or the flags, but it is the load of the dictionary all the
  same: when the mapped segment unpickles, the cache becomes what the segment holds, and
  it is kept only when the segment fails to unpickle with one of the three errors the
  load passes over.
\<close>

theorem reentrant_acquire_reloads:
  assumes fl: "thread_local h t = Some True"
    and a: "acquire_lock E t w h = (r, w', h')"
    and m: "map_file E w h = (w1, h1)"
  shows "(r, w', h') = load_dict E w h
       \<and> sem_value w' = sem_value w
       \<and> thread_local h' = thread_local h
       \<and> (\<forall>d. loads E (shm_bytes w1) = Inr d \<longrightarrow> r = Inr () \<and> cache_val w' h' = Some d)
       \<and> (\<forall>e. loads E (shm_bytes w1) = Inl e \<and> internal_dict h \<noteq> None
               \<and> (e = KeyError \<or> e = UnpicklingError \<or> e = EOFError) \<longrightarrow>
              r = Inr () \<and> cache_val w' h' = cache_val w h)"
proof -
  from a fl have eq: "load_dict E w h = (r, w', h')" by (simp add: acquire_lock_def)
  from load_dict_lock_frame [OF eq] have fr: "sem_value w' = sem_value w"
    "thread_local h' = thread_local h" by (simp_all add: lock_frame_def)
  have ok: "r = Inr () \<and> cache_val w' h' = Some d" if "loads E (shm_bytes w1) = Inr d" for d
    using load_dict_segment_ok [OF m that] eq by (auto simp: cache_val_def)
  have ca: "r = Inr () \<and> cache_val w' h' = cache_val w h"
    if "loads E (shm_bytes w1) = Inl e" "internal_dict h \<noteq> None"
       "e = KeyError \<or> e = UnpicklingError \<or> e = EOFError" for e
    using load_dict_segment_caught [OF m that(1) that(3) that(2)] eq map_file_frame(11) [OF m]
    by auto
  from eq fr ok ca show ?thesis by auto
qed

theorem reentrant_acquire_reloads_witness:
  "thread_local held_handle 0 = Some True
   \<and> cache_val stored_world held_handle = Some [(1, 2)]
   \<and> loads demo_env (shm_bytes (fst (map_file demo_env stored_world held_handle))) = Inr [(9, 9)]
   \<and> outcome (acquire_lock demo_env 0 stored_world held_handle) = Inr ()
   \<and> sem_value (world_of (acquire_lock demo_env 0 stored_world held_handle)) = sem_value stored_world
   \<and> cache_val (world_of (acquire_lock demo_env 0 stored_world held_handle))
        (handle_of (acquire_lock demo_env 0 stored_world held_handle)) = Some [(9, 9)]"
proof -
  let ?a = "acquire_lock demo_env 0 stored_world held_handle"
  let ?m = "map_file demo_env stored_world held_handle"
  have fl: "thread_local held_handle 0 = Some True" by (simp add: held_handle_def)
  have cv: "cache_val stored_world held_handle = Some [(1, 2)]"
    by (simp add: demo_states cache_val_def)
  have ld: "loads demo_env (shm_bytes (fst ?m)) = Inr [(9, 9)]"
    by (simp add: demo_states model_eval split del: if_split)
  have ea: "?a = (outcome ?a, world_of ?a, handle_of ?a)" by simp
  have em: "?m = (fst ?m, snd ?m)" by simp
  from reentrant_acquire_reloads [OF fl ea em] ld
  have "outcome ?a = Inr () \<and> sem_value (world_of ?a) = sem_value stored_world
        \<and> cache_val (world_of ?a) (handle_of ?a) = Some [(9, 9)]"
    by blast
  with fl cv ld show ?thesis by blast
qed

text \<open>
  The claim as stated, that the nested acquire does not reload the cache, fails: the
  entry \<open>3 \<mapsto> 4\<close> stored in the cache under the outer hold is gone after the nested
  acquire, which has read the segment again.
\<close>

theorem reentrant_acquire_counterexample:
  "outcome nested_2 = Inr () \<and> thread_local (handle_of nested_3) 0 = Some True
   \<and> cache_of nested_3 = Some [(1, 2), (3, 4)]
   \<and> outcome nested_4 = Inr () \<and> cache_of nested_4 = Some [(1, 2)]"
  by (simp add: nested_1_def nested_2_def nested_3_def nested_4_def demo_states model_eval
      split del: if_split)

subsection \<open>Loading\<close>

text \<open>
  Claim C6. The load is meant to take the segment, else the persistence file, else an
  empty dictionary, and the comments in \<^verbatim>\<open>__load_dict\<close> state the last two steps for an
  empty segment. The code tests the cache attribute instead, which is \<^verbatim>\<open>None\<close> only
  before the first load (\<open>load_dict_first_load\<close> has the three outcomes there). In the
  run below a second handle has grown the segment to two pages; the first handle, whose
  cache pickles into one page, cuts the segment back on its next access, fails to
  unpickle it, and keeps its old cache: with a persistence path set and a file holding
  all three entries it reports the length 1, from neither the segment, nor the file, nor
  an empty dictionary.
\<close>

theorem stale_cache_after_failed_load:
  "persist_file per_handle \<noteq> None
   \<and> outcome stale_3 = Inr ()
   \<and> pfile (world_of stale_3) = Some (demo_dumps (Some [(1, 2), (7, 7), (8, 8)]))
   \<and> loads demo_env (shm_bytes (world_of stale_3)) = Inr [(1, 2), (7, 7), (8, 8)]
   \<and> outcome stale_4 = Inr 1
   \<and> cache_of stale_4 = Some [(1, 2)]
   \<and> loads demo_env (shm_bytes (world_of stale_4)) = Inl EOFError
   \<and> pfile (world_of stale_4) = Some (demo_dumps (Some [(1, 2), (7, 7), (8, 8)]))"
  using stale_run by (simp add: report_def per_handle_def init_def)

subsection \<open>Names\<close>

text \<open>
  Claim C4. The derived name is a function of the role tag and the logical name alone,
  and it is meant to be the separator \<^verbatim>\<open>/\<close> followed by the base64url encoding of the
  digest, so that only base64url characters follow the separator; the test of the names
  says so. The code falls short of that: it passes the encoded digest, a bytes object
  under Python 3, to \<^verbatim>\<open>str.format\<close>, which renders it with the letter \<^verbatim>\<open>b\<close> and single
  quotes around it. For the role tag \<^verbatim>\<open>sem\<close> and the plain name \<^verbatim>\<open>"a"\<close> the derived name
  holds the quote character, which is not a base64url character, and is not a legal name
  of the specification.
\<close>

theorem safe_name_quotes_at_ascii_name:
  "safe_name demo_env sem_tag [0x61] =
     Inr (CHR ''/'' # CHR ''b'' # CHR 0x27
          # urlsafe_b64encode (sha512 demo_env [0x73, 0x65, 0x6D, 0x5F, 0x61]) @ [CHR 0x27])
   \<and> \<not> b64url_legal (CHR 0x27)
   \<and> \<not> name_legal (safe_name demo_env sem_tag [0x61])"
proof -
  have e: "utf8_encode (sem_tag @ [0x5F] @ [0x61]) = Inr [0x73, 0x65, 0x6D, 0x5F, 0x61]"
    by (simp add: sem_tag_def utf8_char_def)
  note n = safe_name_encoded [OF e, of demo_env]
  from n name_legal_third quote_not_legal
  have "\<not> name_legal (safe_name demo_env sem_tag [0x61])" by metis
  with n quote_not_legal show ?thesis by simp
qed

text \<open>
  What the code computes for any name: the rendering above when neither the tag nor the
  name holds a surrogate code point, and \<^verbatim>\<open>UnicodeEncodeError\<close> from the encoding to
  UTF-8 when one does.
\<close>

lemma safe_name_rendering:
  "((\<forall>c \<in> set (prefix @ nm). \<not> surrogate c) \<longrightarrow>
      (\<exists>s. safe_name E prefix nm = Inr (CHR ''/'' # CHR ''b'' # CHR 0x27 # s @ [CHR 0x27])
           \<and> list_all b64url_legal s))
   \<and> ((\<exists>c \<in> set (prefix @ nm). surrogate c) \<longrightarrow>
        safe_name E prefix nm = Inl UnicodeEncodeError)"
proof (intro conjI impI)
  assume ok: "\<forall>c \<in> set (prefix @ nm). \<not> surrogate c"
  have "\<not> surrogate 0x5F" by (simp add: surrogate_def)
  with ok have "\<forall>c \<in> set (prefix @ [0x5F] @ nm). \<not> surrogate c" by auto
  from utf8_encode_ok [OF this] obtain bs where "utf8_encode (prefix @ [0x5F] @ nm) = Inr bs" ..
  from safe_name_encoded [OF this] urlsafe_b64encode_legal
  show "\<exists>s. safe_name E prefix nm = Inr (CHR ''/'' # CHR ''b'' # CHR 0x27 # s @ [CHR 0x27])
           \<and> list_all b64url_legal s"
    by blast
next
  assume "\<exists>c \<in> set (prefix @ nm). surrogate c"
  then show "safe_name E prefix nm = Inl UnicodeEncodeError" by (rule safe_name_surrogate)
qed

subsection \<open>Iterating\<close>

text \<open>
  Claim C9, as the code has it. \<^verbatim>\<open>__iter__\<close> returns the built-in iterator over the
  dictionary object that is the handle's cache when the lock is released, at position 0.
  It is a view of that object: in every later state in which the object is as it was,
  the iterator yields the keys the object had at acquisition, in order; in every later
  state in which the object has another number of entries, the iterator raises
  \<^verbatim>\<open>RuntimeError\<close>.
\<close>

theorem iter_is_live_view:
  assumes "iter E t w h = (Inr it, w', h')"
  shows "\<exists>d. internal_dict h' = Some (it_dict it) \<and> heap w' (it_dict it) = Some d
           \<and> it_used it = length d \<and> it_pos it = 0
           \<and> (\<forall>w''. heap w'' (it_dict it) = Some d \<longrightarrow> iter_list w'' it = Inr (map fst d))
           \<and> (\<forall>w'' d'. heap w'' (it_dict it) = Some d' \<and> length d' \<noteq> length d \<longrightarrow>
                  iter_list w'' it = Inl RuntimeError)"
proof -
  obtain ra w1 h1 where a: "acquire_lock E t w h = (ra, w1, h1)"
    by (cases "acquire_lock E t w h")
  from assms a obtain u where ra: "ra = Inr u"
    by (cases ra) (auto simp: iter_def exclusive_lock_def)
  from assms a ra obtain ad d where i: "internal_dict h1 = Some ad" and hp: "heap w1 ad = Some d"
    by (auto simp: iter_def exclusive_lock_def with_cache_def split: option.splits)
  obtain rr w3 h3 where rl: "release_lock E t w1 h1 = (rr, w3, h3)"
    by (cases "release_lock E t w1 h1")
  from assms a ra i hp rl have it: "it = \<lparr>it_dict = ad, it_used = length d, it_pos = 0\<rparr>"
    and w': "w' = w3" and h': "h' = h3"
    by (auto simp: iter_def exclusive_lock_def with_cache_def split: sum.splits)
  from release_lock_cache [OF rl] i hp have c: "internal_dict h3 = Some ad" "heap w3 ad = Some d"
    by simp_all
  have same: "iter_list w'' it = Inr (map fst d)" if "heap w'' (it_dict it) = Some d" for w''
    using iter_list_unchanged [OF that] by (simp add: it)
  have diff: "iter_list w'' it = Inl RuntimeError"
    if "heap w'' (it_dict it) = Some d'" "length d' \<noteq> length d" for w'' d'
    using iter_list_resized [OF that(1)] that(2) by (simp add: it)
  from c same diff show ?thesis by (auto simp: it w' h')
qed

theorem iter_is_live_view_witness:
  "iter demo_env 0 fresh_world vol_handle =
     (Inr \<lparr>it_dict = 0, it_used = 0, it_pos = 0\<rparr>, world_of live_1, handle_of live_1)
   \<and> internal_dict (handle_of live_1) = Some 0
   \<and> iter_list (world_of live_1) \<lparr>it_dict = 0, it_used = 0, it_pos = 0\<rparr> = Inr []"
proof -
  let ?it = "\<lparr>it_dict = 0, it_used = 0, it_pos = 0\<rparr>"
  have o: "outcome live_1 = Inr ?it"
    by (simp add: live_1_def demo_states model_eval split del: if_split)
  have e: "iter demo_env 0 fresh_world vol_handle = (Inr ?it, world_of live_1, handle_of live_1)"
    using o by (simp add: live_1_def prod_eq_iff)
  from iter_is_live_view [OF e] obtain d where
    d: "internal_dict (handle_of live_1) = Some 0" "heap (world_of live_1) 0 = Some d"
       "length d = 0"
       "\<forall>w''. heap w'' 0 = Some d \<longrightarrow> iter_list w'' ?it = Inr (map fst d)"
    by auto
  from d(2,3,4) have "iter_list (world_of live_1) ?it = Inr []" by auto
  with e d(1) show ?thesis by blast
qed

text \<open>
  The claim as stated, that the iterator runs over a snapshot which later mutations do
  not affect, fails on a new handle: the load before \<^verbatim>\<open>__setitem__\<close> finds nothing to
  unpickle and keeps the cache object, the entry is stored in the very object the
  iterator refers to, and the iterator, which would have yielded no key, raises.
\<close>

theorem iter_snapshot_counterexample:
  "outcome live_1 = Inr \<lparr>it_dict = 0, it_used = 0, it_pos = 0\<rparr>
   \<and> iter_list (world_of live_1) (projr (outcome live_1)) = Inr []
   \<and> outcome live_2 = Inr ()
   \<and> iter_list (world_of live_2) (projr (outcome live_1)) = Inl RuntimeError"
  by (simp add: live_1_def live_2_def demo_states model_eval split del: if_split)

end
